theory Spec2Isabelle
  imports Main
begin

section \<open>Data model (pkg/models)\<close>

text \<open>
  The order handlers of \<^verbatim>\<open>package handlers\<close> (CreateOrder, UpdateOrderStatus,
  CancelOrder, isValidStatusTransition) are embedded as functions on an explicit store.

  Money is \<^verbatim>\<open>float64\<close> in the Go structs. Its arithmetic is kept abstract: the
  type \<open>'m\<close> of prices only has to provide \<open>0\<close>, \<open>+\<close> and \<open>*\<close> (no law is assumed
  of them), and the conversion \<^verbatim>\<open>float64(item.Quantity)\<close> is a parameter \<open>conv\<close>
  of the handler. Every theorem below therefore holds for whatever these operations
  compute; the rounding of the \<^verbatim>\<open>decimal(10,2)\<close> columns when a row is written
  is not modelled. Stock and quantities are Go \<^verbatim>\<open>int\<close> (64 bits) and are
  modelled as \<open>int\<close> with the wrap-around of the Go subtraction written out.

  Of the structs, the fields that the three handlers read or write are kept; primary
  keys, timestamps and the nested user and product objects of a request body are not
  modelled (the store assigns the key of a new order). A soft-deleted row is invisible
  to every query the handlers make, so a table holds the visible rows only.
\<close>

type_synonym OrderStatus = string

abbreviation OrderStatusPending :: OrderStatus where "OrderStatusPending \<equiv> ''pending''"
abbreviation OrderStatusPaid :: OrderStatus where "OrderStatusPaid \<equiv> ''paid''"
abbreviation OrderStatusShipped :: OrderStatus where "OrderStatusShipped \<equiv> ''shipped''"
abbreviation OrderStatusDelivered :: OrderStatus where "OrderStatusDelivered \<equiv> ''delivered''"
abbreviation OrderStatusCancelled :: OrderStatus where "OrderStatusCancelled \<equiv> ''cancelled''"

record 'm Product =
  Price :: 'm
  Stock :: int

record 'm OrderItem =
  ProductID :: nat
  Quantity :: int
  ItemPrice :: 'm

record 'm Order =
  UserID :: nat
  Status :: OrderStatus
  Total :: 'm
  Items :: "'m OrderItem list"

text \<open>The store: the \<^verbatim>\<open>products\<close> and \<^verbatim>\<open>orders\<close> tables, by primary key.\<close>

record 'm DB =
  products :: "nat \<rightharpoonup> 'm Product"
  orders :: "nat \<rightharpoonup> 'm Order"

text \<open>
  What the store decides and the handler cannot: whether a statement returns an error
  (the handlers answer 500 and roll back), and the key given to an inserted order.
  \<open>stock_write_fails i\<close> is the stock update made for the \<open>i\<close>-th item of the loop.
\<close>

record Env =
  stock_write_fails :: "nat \<Rightarrow> bool"
  order_write_fails :: bool
  commit_fails :: bool
  reload_fails :: bool
  new_order_id :: nat

text \<open>
  Responses: the status code and the JSON body (\<^verbatim>\<open>gin.H\<close> with its keys, the
  order or the product with its key, or no body for \<^verbatim>\<open>c.Status\<close>).
\<close>

datatype 'm Body =
    NoBody
  | ErrorH string
  | ErrorProductH string nat
  | ErrorStockH string nat int int
  | OrderJSON nat "'m Order"
  | ProductJSON nat "'m Product"

type_synonym 'm Response = "nat \<times> 'm Body"

abbreviation StatusOK :: nat where "StatusOK \<equiv> 200"
abbreviation StatusCreated :: nat where "StatusCreated \<equiv> 201"
abbreviation StatusBadRequest :: nat where "StatusBadRequest \<equiv> 400"
abbreviation StatusNotFound :: nat where "StatusNotFound \<equiv> 404"
abbreviation StatusInternalServerError :: nat where "StatusInternalServerError \<equiv> 500"

section \<open>Machine integers\<close>

definition in_int64 :: "int \<Rightarrow> bool" where
  "in_int64 x = (- (2 ^ 63) \<le> x \<and> x < 2 ^ 63)"

definition wrap64 :: "int \<Rightarrow> int" where
  "wrap64 x = (x + 2 ^ 63) mod 2 ^ 64 - 2 ^ 63"

section \<open>The status machine\<close>

text \<open>The map literal of \<^verbatim>\<open>isValidStatusTransition\<close>, in the order it is written.\<close>

definition validTransitions :: "(OrderStatus \<times> OrderStatus list) list" where
  "validTransitions =
     [(OrderStatusPending, [OrderStatusPaid, OrderStatusCancelled]),
      (OrderStatusPaid, [OrderStatusShipped, OrderStatusCancelled]),
      (OrderStatusShipped, [OrderStatusDelivered, OrderStatusCancelled]),
      (OrderStatusDelivered, []),
      (OrderStatusCancelled, [])]"

text \<open>The \<^verbatim>\<open>for _, validStatus := range ...\<close> loop; a missing key gives the nil slice.\<close>

fun range_valid :: "OrderStatus list \<Rightarrow> OrderStatus \<Rightarrow> bool" where
  "range_valid [] new = False"
| "range_valid (validStatus # rest) new =
     (if validStatus = new then True else range_valid rest new)"

definition isValidStatusTransition :: "OrderStatus \<Rightarrow> OrderStatus \<Rightarrow> bool" where
  "isValidStatusTransition current new =
     range_valid (case map_of validTransitions current of None \<Rightarrow> [] | Some l \<Rightarrow> l) new"

section \<open>UpdateOrderStatus\<close>

text \<open>
  \<^verbatim>\<open>binding:"required"\<close> rejects the empty status. The handler runs outside a
  transaction: one read, one write.
\<close>

definition UpdateOrderStatus ::
  "Env \<Rightarrow> 'm DB \<Rightarrow> nat \<Rightarrow> OrderStatus \<Rightarrow> 'm Response \<times> 'm DB" where
  "UpdateOrderStatus env db oid status =
     (if status = [] then ((StatusBadRequest, ErrorH ''Invalid request body''), db)
      else (case orders db oid of
        None \<Rightarrow> ((StatusNotFound, ErrorH ''Order not found''), db)
      | Some order \<Rightarrow>
          (if \<not> isValidStatusTransition (Status order) status
           then ((StatusBadRequest, ErrorH ''Invalid status transition''), db)
           else if order_write_fails env
           then ((StatusInternalServerError, ErrorH ''Failed to update order status''), db)
           else ((StatusOK, NoBody),
                 db\<lparr>orders := (orders db)(oid \<mapsto> order\<lparr>Status := status\<rparr>)\<rparr>))))"

section \<open>CreateOrder\<close>

text \<open>
  The loop over \<^verbatim>\<open>order.Items\<close> inside the transaction \<open>tx\<close>. \<open>i\<close> is the loop
  index, \<open>priced\<close> the items already given their price, \<open>total'\<close> the running total.
  An early return of the loop is \<open>Inl\<close> of the response.
\<close>

fun reserve_loop ::
  "(int \<Rightarrow> 'm) \<Rightarrow> Env \<Rightarrow> nat \<Rightarrow> 'm OrderItem list \<Rightarrow> 'm DB \<Rightarrow> 'm OrderItem list \<Rightarrow> 'm::{plus,times}
     \<Rightarrow> 'm Response + ('m DB \<times> 'm OrderItem list \<times> 'm)" where
  "reserve_loop conv env i [] tx priced total' = Inr (tx, priced, total')"
| "reserve_loop conv env i (item # rest) tx priced total' =
     (case products tx (ProductID item) of
        None \<Rightarrow> Inl (StatusNotFound, ErrorProductH ''Product not found'' (ProductID item))
      | Some product \<Rightarrow>
          (if Stock product < Quantity item
           then Inl (StatusBadRequest,
                     ErrorStockH ''Insufficient stock'' (ProductID item) (Stock product) (Quantity item))
           else if stock_write_fails env i
           then Inl (StatusInternalServerError, ErrorH ''Failed to update stock'')
           else reserve_loop conv env (Suc i) rest
                  (tx\<lparr>products := (products tx)
                     (ProductID item \<mapsto> product\<lparr>Stock := wrap64 (Stock product - Quantity item)\<rparr>)\<rparr>)
                  (priced @ [item\<lparr>ItemPrice := Price product\<rparr>])
                  (total' + Price product * conv (Quantity item))))"

text \<open>
  The handler, on a body that \<^verbatim>\<open>ShouldBindJSON\<close> has bound (the \<^verbatim>\<open>Order\<close>
  struct has no binding tags, so every well-typed body binds). A rollback returns the
  store as it was at \<^verbatim>\<open>Begin\<close>, and so does a commit that fails; the insert fails
  on a key that is taken; after the commit the order is read back and returned.
\<close>

definition CreateOrder ::
  "(int \<Rightarrow> 'm) \<Rightarrow> Env \<Rightarrow> 'm DB \<Rightarrow> 'm Order \<Rightarrow> ('m::{zero,plus,times}) Response \<times> 'm DB" where
  "CreateOrder conv env db order =
     (case reserve_loop conv env 0 (Items order) db [] 0 of
        Inl resp \<Rightarrow> (resp, db)
      | Inr (tx, priced, total') \<Rightarrow>
          (let order' = order\<lparr>Items := priced, Total := total', Status := OrderStatusPending\<rparr>;
               oid = new_order_id env
           in (if order_write_fails env \<or> orders tx oid \<noteq> None
               then ((StatusInternalServerError, ErrorH ''Failed to create order''), db)
               else if commit_fails env
               then ((StatusInternalServerError, ErrorH ''Failed to commit transaction''), db)
               else (let db' = tx\<lparr>orders := (orders tx)(oid \<mapsto> order')\<rparr>
                     in (if reload_fails env
                         then ((StatusInternalServerError,
                                ErrorH ''Failed to load order details''), db')
                         else (case orders db' oid of
                                 None \<Rightarrow> ((StatusInternalServerError,
                                            ErrorH ''Failed to load order details''), db')
                               | Some loaded \<Rightarrow>
                                   ((StatusCreated, OrderJSON oid loaded), db')))))))"

section \<open>CancelOrder\<close>

text \<open>
  The restore loop: \<^verbatim>\<open>UPDATE products SET stock = stock + ? WHERE id = ?\<close>, the sum
  computed by the store. A product that is not there leaves no row to update, which is
  no error; the column is a 64-bit integer, and the store refuses a sum outside its
  range. The handler reads the order with its items, restores, sets the status and
  commits, all in one transaction.
\<close>

fun restore_loop :: "Env \<Rightarrow> nat \<Rightarrow> 'm OrderItem list \<Rightarrow> 'm DB \<Rightarrow> 'm Response + 'm DB" where
  "restore_loop env i [] tx = Inr tx"
| "restore_loop env i (item # rest) tx =
     (case products tx (ProductID item) of
        None \<Rightarrow>
          (if stock_write_fails env i
           then Inl (StatusInternalServerError, ErrorH ''Failed to restore stock'')
           else restore_loop env (Suc i) rest tx)
      | Some product \<Rightarrow>
          (if stock_write_fails env i \<or> \<not> in_int64 (Stock product + Quantity item)
           then Inl (StatusInternalServerError, ErrorH ''Failed to restore stock'')
           else restore_loop env (Suc i) rest
                  (tx\<lparr>products := (products tx)
                     (ProductID item \<mapsto> product\<lparr>Stock := Stock product + Quantity item\<rparr>)\<rparr>)))"

definition CancelOrder :: "Env \<Rightarrow> 'm DB \<Rightarrow> nat \<Rightarrow> 'm Response \<times> 'm DB" where
  "CancelOrder env db oid =
     (case orders db oid of
        None \<Rightarrow> ((StatusNotFound, ErrorH ''Order not found''), db)
      | Some order \<Rightarrow>
          (if Status order = OrderStatusCancelled
           then ((StatusBadRequest, ErrorH ''Order is already cancelled''), db)
           else if Status order = OrderStatusDelivered
           then ((StatusBadRequest, ErrorH ''Cannot cancel delivered order''), db)
           else (case restore_loop env 0 (Items order) db of
                   Inl resp \<Rightarrow> (resp, db)
                 | Inr tx \<Rightarrow>
                     (if order_write_fails env
                      then ((StatusInternalServerError, ErrorH ''Failed to cancel order''), db)
                      else if commit_fails env
                      then ((StatusInternalServerError,
                             ErrorH ''Failed to commit transaction''), db)
                      else ((StatusOK, NoBody),
                            tx\<lparr>orders := (orders tx)
                               (oid \<mapsto> order\<lparr>Status := OrderStatusCancelled\<rparr>)\<rparr>)))))"

section \<open>UpdateProduct\<close>


section \<open>Vocabulary of the properties\<close>

text \<open>
  A reservation fails in the transaction state \<open>tx\<close> when the product is not there or
  its stock is below the quantity; \<open>reservation_error\<close> is the response the loop
  gives then (the product id, and for the stock also what is available and requested).
\<close>

definition reservation_fails :: "'m DB \<Rightarrow> 'm OrderItem \<Rightarrow> bool" where
  "reservation_fails tx item =
     (case products tx (ProductID item) of
        None \<Rightarrow> True
      | Some product \<Rightarrow> Stock product < Quantity item)"

definition reservation_error :: "'m DB \<Rightarrow> 'm OrderItem \<Rightarrow> 'm Response" where
  "reservation_error tx item =
     (case products tx (ProductID item) of
        None \<Rightarrow> (StatusNotFound, ErrorProductH ''Product not found'' (ProductID item))
      | Some product \<Rightarrow>
          (StatusBadRequest,
           ErrorStockH ''Insufficient stock'' (ProductID item) (Stock product) (Quantity item)))"

text \<open>
  \<open>priced_from db req it\<close>: the stored item \<open>it\<close> is the requested item \<open>req\<close> with
  the price its product has in \<open>db\<close>. \<open>line_total\<close> adds one item's
  \<open>unit_price * quantity\<close> to a sum, so \<open>foldl (line_total conv) 0 items\<close> is the sum over
  the items, added up from the left as the handler does.
\<close>

definition priced_from :: "'m DB \<Rightarrow> 'm OrderItem \<Rightarrow> 'm OrderItem \<Rightarrow> bool" where
  "priced_from db req it =
     (ProductID it = ProductID req \<and> Quantity it = Quantity req \<and>
      map_option Price (products db (ProductID req)) = Some (ItemPrice it))"

definition line_total :: "(int \<Rightarrow> 'm) \<Rightarrow> 'm::{plus,times} \<Rightarrow> 'm OrderItem \<Rightarrow> 'm" where
  "line_total conv acc it = acc + ItemPrice it * conv (Quantity it)"

text \<open>
  The stock invariant I3 on a store (every stock is a non-negative 64-bit value), and
  the condition on the stored items under which the handlers keep it.
\<close>

definition stock_ok :: "'m DB \<Rightarrow> bool" where
  "stock_ok db =
     (\<forall>pid product. products db pid = Some product \<longrightarrow>
        0 \<le> Stock product \<and> in_int64 (Stock product))"

definition quantities_ok :: "'m DB \<Rightarrow> bool" where
  "quantities_ok db =
     (\<forall>oid order. orders db oid = Some order \<longrightarrow>
        (\<forall>item \<in> set (Items order). 0 \<le> Quantity item))"

text \<open>
  \<open>ordered_quantity pid items\<close>: the quantity the items of an order name for product
  \<open>pid\<close>, that is what the order debited for it (several items may name one product).
\<close>

definition ordered_quantity :: "nat \<Rightarrow> 'm OrderItem list \<Rightarrow> int" where
  "ordered_quantity pid items =
     sum_list (map Quantity (filter (\<lambda>it. ProductID it = pid) items))"

text \<open>
  The transition table as the specification draws it (section 4.2), as a list of edges.
\<close>

definition spec_transition_table :: "(OrderStatus \<times> OrderStatus) list" where
  "spec_transition_table =
     [(''pending'', ''paid''), (''pending'', ''cancelled''),
      (''paid'', ''shipped''), (''paid'', ''cancelled''),
      (''shipped'', ''delivered''), (''shipped'', ''cancelled'')]"

section \<open>Concrete stores and requests\<close>

text \<open>
  Examples use money in cents (\<open>int\<close>, with \<open>of_int\<close> as the conversion): product 1
  costs 9.99 and has 10 in stock, product 2 costs 5.00 and has 5. A request is what the
  client sends: the user and the (product, quantity) lines, every other field zero.
\<close>

definition no_faults :: "nat \<Rightarrow> Env" where
  "no_faults n = \<lparr>stock_write_fails = (\<lambda>i. False), order_write_fails = False,
                  commit_fails = False, reload_fails = False, new_order_id = n\<rparr>"

definition shop :: "int DB" where
  "shop = \<lparr>products = [1 \<mapsto> \<lparr>Price = 999, Stock = 10\<rparr>, 2 \<mapsto> \<lparr>Price = 500, Stock = 5\<rparr>],
           orders = Map.empty\<rparr>"

definition request :: "nat \<Rightarrow> (nat \<times> int) list \<Rightarrow> int Order" where
  "request uid lines =
     \<lparr>UserID = uid, Status = [], Total = 0,
      Items = map (\<lambda>(pid, q). \<lparr>ProductID = pid, Quantity = q, ItemPrice = 0\<rparr>) lines\<rparr>"

text \<open>The shop after user 1 has ordered three of product 1 (order 1, pending).\<close>

definition placed :: "int DB" where
  "placed = snd (CreateOrder of_int (no_faults 1) shop (request 1 [(1, 3)]))"

section \<open>Concurrent calls of CreateOrder\<close>

text \<open>
  Several requests run the handler at once against the one store. For a request of
  one item the handler makes two accesses to the product's row, and another request's
  access can fall between them:
  \<^item> \<^verbatim>\<open>tx.First(&product, item.ProductID)\<close>, a plain read (no lock is asked for); the
    handler then holds the row as it was read;
  \<^item> the stock check on the row it holds, and
    \<^verbatim>\<open>tx.Model(&product).Update("stock", product.Stock-item.Quantity)\<close>, which writes a
    value computed in Go from the row it holds, followed by the insert of the order,
    the commit and the reload.
  A read sees what is committed; the write, the insert and the commit of one request
  are taken as one step (so no request ever sees an uncommitted value, and a request
  that is rolled back leaves nothing behind). This is the behaviour of the store at
  its default isolation, which \<^verbatim>\<open>database.DB.Begin()\<close> does not change.
\<close>

datatype 'm Call =
    Begun
  | Holding "'m Product"
  | Answered "'m Response"

text \<open>The read: \<^verbatim>\<open>tx.First\<close> and its error branch.\<close>

definition read_product :: "'m OrderItem \<Rightarrow> 'm DB \<Rightarrow> 'm Call" where
  "read_product item db =
     (case products db (ProductID item) of
        None \<Rightarrow> Answered (StatusNotFound, ErrorProductH ''Product not found'' (ProductID item))
      | Some product \<Rightarrow> Holding product)"

text \<open>
  \<^verbatim>\<open>UPDATE products SET stock = ? WHERE id = ?\<close>: the stock column of the row as it
  is in the store now is set to the given value.
\<close>

definition update_stock :: "'m DB \<Rightarrow> nat \<Rightarrow> int \<Rightarrow> 'm DB" where
  "update_stock db pid n =
     (case products db pid of
        None \<Rightarrow> db
      | Some row \<Rightarrow> db\<lparr>products := (products db)(pid \<mapsto> row\<lparr>Stock := n\<rparr>)\<rparr>)"

text \<open>
  The rest of the handler for a request whose only item is \<open>item\<close>, from the stock
  check on, with \<open>product\<close> the row read before.
\<close>

definition check_and_write ::
  "(int \<Rightarrow> 'm) \<Rightarrow> Env \<Rightarrow> 'm Order \<Rightarrow> 'm OrderItem \<Rightarrow> 'm Product \<Rightarrow> 'm DB
     \<Rightarrow> ('m::{zero,plus,times}) Response \<times> 'm DB" where
  "check_and_write conv env order item product db =
     (if Stock product < Quantity item
      then ((StatusBadRequest,
             ErrorStockH ''Insufficient stock'' (ProductID item) (Stock product) (Quantity item)),
            db)
      else if stock_write_fails env 0
      then ((StatusInternalServerError, ErrorH ''Failed to update stock''), db)
      else (let tx = update_stock db (ProductID item) (wrap64 (Stock product - Quantity item));
                order' = order\<lparr>Items := [item\<lparr>ItemPrice := Price product\<rparr>],
                               Total := 0 + Price product * conv (Quantity item),
                               Status := OrderStatusPending\<rparr>;
                oid = new_order_id env
            in (if order_write_fails env \<or> orders tx oid \<noteq> None
                then ((StatusInternalServerError, ErrorH ''Failed to create order''), db)
                else if commit_fails env
                then ((StatusInternalServerError, ErrorH ''Failed to commit transaction''), db)
                else (let db' = tx\<lparr>orders := (orders tx)(oid \<mapsto> order')\<rparr>
                      in (if reload_fails env
                          then ((StatusInternalServerError,
                                 ErrorH ''Failed to load order details''), db')
                          else (case orders db' oid of
                                  None \<Rightarrow> ((StatusInternalServerError,
                                             ErrorH ''Failed to load order details''), db')
                                | Some loaded \<Rightarrow>
                                    ((StatusCreated, OrderJSON oid loaded), db')))))))"

text \<open>
  A caller is one request in flight: what the store decides for it, its body, and the
  one item of the body. \<open>call_step\<close> is its next access to the store (none once it is
  answered).
\<close>

record 'm Caller =
  caller_env :: Env
  caller_order :: "'m Order"
  caller_item :: "'m OrderItem"

fun call_step ::
  "(int \<Rightarrow> 'm) \<Rightarrow> 'm Caller \<Rightarrow> 'm Call \<Rightarrow> 'm DB \<Rightarrow> ('m::{zero,plus,times}) Call \<times> 'm DB" where
  "call_step conv c Begun db = (read_product (caller_item c) db, db)"
| "call_step conv c (Holding product) db =
     (case check_and_write conv (caller_env c) (caller_order c) (caller_item c) product db of
        (resp, db') \<Rightarrow> (Answered resp, db'))"
| "call_step conv c (Answered resp) db = (Answered resp, db)"

text \<open>
  A schedule names, step by step, the caller that makes its next access. \<open>run\<close>
  carries the state of every call and the store along a schedule.
\<close>

fun run ::
  "(int \<Rightarrow> 'm) \<Rightarrow> 'm Caller list \<Rightarrow> nat list \<Rightarrow> 'm Call list \<times> 'm DB
     \<Rightarrow> ('m::{zero,plus,times}) Call list \<times> 'm DB" where
  "run conv cs [] st = st"
| "run conv cs (k # schedule) (calls, db) =
     (if k < length cs \<and> k < length calls
      then (case call_step conv (cs ! k) (calls ! k) db of
              (call', db') \<Rightarrow> run conv cs schedule (calls[k := call'], db'))
      else run conv cs schedule (calls, db))"

text \<open>The stock debited by the calls that were answered 201.\<close>

fun debit_of :: "'m Caller \<Rightarrow> 'm Call \<Rightarrow> int" where
  "debit_of c (Answered (code, body)) =
     (if code = StatusCreated then Quantity (caller_item c) else 0)"
| "debit_of c call = 0"

definition committed_debits :: "'m Caller list \<Rightarrow> 'm Call list \<Rightarrow> int" where
  "committed_debits cs calls = sum_list (map (\<lambda>(c, call). debit_of c call) (zip cs calls))"

text \<open>Caller \<open>n\<close>: user \<open>n\<close> asks for three of product 2 (stock 5); its order gets key \<open>n\<close>.\<close>

definition caller :: "nat \<Rightarrow> int Caller" where
  "caller n = \<lparr>caller_env = no_faults n, caller_order = request n [(2, 3)],
               caller_item = \<lparr>ProductID = 2, Quantity = 3, ItemPrice = 0\<rparr>\<rparr>"

section \<open>The status machine is the table of the specification\<close>

lemma isValidStatusTransition_table:
  "isValidStatusTransition current new \<longleftrightarrow> (current, new) \<in> set spec_transition_table"
  by (auto simp: isValidStatusTransition_def validTransitions_def spec_transition_table_def)

text \<open>
  C3. For an existing order and a requested status (one of the five, so not empty):
  when the edge (current, requested) is not in the transition table, UpdateOrderStatus
  answers 400 ``Invalid status transition'' (InvalidTransition) and the store, hence the
  status, is unchanged; this covers every self-transition and every transition out of
  delivered or cancelled. When the edge is in the table, the update succeeds with 200
  and the order carries the new status (the store executing the write).
\<close>

theorem UpdateOrderStatus_state_machine:
  assumes "orders db oid = Some order" and "new \<noteq> []"
  shows "if (Status order, new) \<in> set spec_transition_table
         then \<not> order_write_fails env \<longrightarrow>
              UpdateOrderStatus env db oid new =
                ((StatusOK, NoBody),
                 db\<lparr>orders := (orders db)(oid \<mapsto> order\<lparr>Status := new\<rparr>)\<rparr>)
         else UpdateOrderStatus env db oid new =
                ((StatusBadRequest, ErrorH ''Invalid status transition''), db)"
  using assms by (simp add: UpdateOrderStatus_def isValidStatusTransition_table)

lemma placed_eq:
  "placed =
     \<lparr>products = [1 \<mapsto> \<lparr>Price = 999, Stock = 7\<rparr>, 2 \<mapsto> \<lparr>Price = 500, Stock = 5\<rparr>],
      orders = [1 \<mapsto> \<lparr>UserID = 1, Status = ''pending'', Total = 2997,
                         Items = [\<lparr>ProductID = 1, Quantity = 3, ItemPrice = 999\<rparr>]\<rparr>]\<rparr>"
  by (simp add: placed_def CreateOrder_def request_def shop_def no_faults_def wrap64_def
      fun_upd_twist)

theorem UpdateOrderStatus_state_machine_witness:
  "UpdateOrderStatus (no_faults 1) placed 1 ''paid'' =
     ((StatusOK, NoBody),
      placed\<lparr>orders := (orders placed)
        (1 \<mapsto> \<lparr>UserID = 1, Status = ''paid'', Total = 2997,
                 Items = [\<lparr>ProductID = 1, Quantity = 3, ItemPrice = 999\<rparr>]\<rparr>)\<rparr>) \<and>
   UpdateOrderStatus (no_faults 1) placed 1 ''pending'' =
     ((StatusBadRequest, ErrorH ''Invalid status transition''), placed) \<and>
   UpdateOrderStatus (no_faults 1) placed 1 ''delivered'' =
     ((StatusBadRequest, ErrorH ''Invalid status transition''), placed)"
  using
    UpdateOrderStatus_state_machine [of placed 1
      "\<lparr>UserID = 1, Status = ''pending'', Total = 2997,
        Items = [\<lparr>ProductID = 1, Quantity = 3, ItemPrice = 999\<rparr>]\<rparr>" "''paid''" "no_faults 1"]
    UpdateOrderStatus_state_machine [of placed 1
      "\<lparr>UserID = 1, Status = ''pending'', Total = 2997,
        Items = [\<lparr>ProductID = 1, Quantity = 3, ItemPrice = 999\<rparr>]\<rparr>" "''pending''" "no_faults 1"]
    UpdateOrderStatus_state_machine [of placed 1
      "\<lparr>UserID = 1, Status = ''pending'', Total = 2997,
        Items = [\<lparr>ProductID = 1, Quantity = 3, ItemPrice = 999\<rparr>]\<rparr>" "''delivered''" "no_faults 1"]
  by (simp add: placed_eq spec_transition_table_def no_faults_def)

section \<open>The reservation loop\<close>

lemma reserve_loop_append:
  "reserve_loop conv env i (xs @ ys) tx priced t =
     (case reserve_loop conv env i xs tx priced t of
        Inl r \<Rightarrow> Inl r
      | Inr (tx', priced', t') \<Rightarrow> reserve_loop conv env (i + length xs) ys tx' priced' t')"
  by (induction xs arbitrary: i tx priced t) (auto split: option.splits sum.splits)

lemma reserve_loop_fails_first:
  "reservation_fails tx item \<Longrightarrow>
   reserve_loop conv env i (item # rest) tx priced t = Inl (reservation_error tx item)"
  by (auto simp: reservation_fails_def reservation_error_def split: option.splits)

lemma reserve_loop_Inl:
  "reserve_loop conv env i items tx priced t = Inl resp \<Longrightarrow> fst resp \<noteq> StatusCreated"
  by (induction items arbitrary: i tx priced t) (auto split: option.splits if_splits)

lemma reserve_loop_orders:
  "reserve_loop conv env i items tx priced t = Inr (tx', priced', t') \<Longrightarrow> orders tx' = orders tx"
  by (induction items arbitrary: i tx priced t) (auto split: option.splits if_splits)

text \<open>The loop changes no price, so a product's price at any reservation is its price in
  the store the handler was given.\<close>

lemma reserve_loop_Price:
  "reserve_loop conv env i items tx priced t = Inr (tx', priced', t') \<Longrightarrow>
   map_option Price (products tx' pid) = map_option Price (products tx pid)"
proof (induction items arbitrary: i tx priced t)
  case Nil
  then show ?case by simp
next
  case (Cons item rest)
  then show ?case
    by (fastforce split: option.splits if_splits)
qed

lemma reserve_loop_priced:
  "reserve_loop conv env i items tx priced t = Inr (tx', priced', t') \<Longrightarrow>
   \<exists>new. priced' = priced @ new \<and> list_all2 (priced_from tx) items new \<and>
         t' = foldl (line_total conv) t new"
proof (induction items arbitrary: i tx priced t)
  case Nil
  then show ?case by simp
next
  case (Cons item rest)
  from Cons.prems obtain product where
    p: "products tx (ProductID item) = Some product"
    and ok: "\<not> Stock product < Quantity item" "\<not> stock_write_fails env i"
    by (auto split: option.splits if_splits)
  let ?tx = "tx\<lparr>products := (products tx)
                 (ProductID item \<mapsto> product\<lparr>Stock := wrap64 (Stock product - Quantity item)\<rparr>)\<rparr>"
  let ?it = "item\<lparr>ItemPrice := Price product\<rparr>"
  from Cons.prems p ok have
    rec: "reserve_loop conv env (Suc i) rest ?tx (priced @ [?it])
            (t + Price product * conv (Quantity item)) = Inr (tx', priced', t')"
    by simp
  from Cons.IH [OF rec] obtain new where
    new: "priced' = (priced @ [?it]) @ new" "list_all2 (priced_from ?tx) rest new"
         "t' = foldl (line_total conv) (t + Price product * conv (Quantity item)) new"
    by blast
  have same: "priced_from ?tx = priced_from tx"
    using p by (auto simp: priced_from_def fun_eq_iff)
  have first: "priced_from tx item ?it"
    using p by (simp add: priced_from_def)
  have line: "line_total conv t ?it = t + Price product * conv (Quantity item)"
    by (simp add: line_total_def)
  from new same first line show ?case
    by (intro exI [of _ "?it # new"]) simp
qed

lemma priced_from_Quantity:
  "list_all2 (priced_from db) reqs its \<Longrightarrow> map Quantity its = map Quantity reqs"
  by (induction rule: list_all2_induct) (auto simp: priced_from_def)

text \<open>Only the product ids and the quantities of the requested items reach the loop.\<close>

lemma reserve_loop_cong:
  "map (\<lambda>it. (ProductID it, Quantity it)) items1 = map (\<lambda>it. (ProductID it, Quantity it)) items2 \<Longrightarrow>
   reserve_loop conv env i items1 tx priced t = reserve_loop conv env i items2 tx priced t"
proof (induction items1 arbitrary: items2 i tx priced t)
  case Nil
  then show ?case by simp
next
  case (Cons item1 rest1)
  then obtain item2 rest2 where
    items2: "items2 = item2 # rest2"
    and same: "ProductID item1 = ProductID item2" "Quantity item1 = Quantity item2"
    and rest: "map (\<lambda>it. (ProductID it, Quantity it)) rest1 = map (\<lambda>it. (ProductID it, Quantity it)) rest2"
    by (cases items2) auto
  show ?case
    unfolding items2 using same Cons.IH [OF rest]
    by (cases item1, cases item2) (simp split: option.splits)
qed

text \<open>What a 201 response says about the run of the handler.\<close>

lemma CreateOrder_created:
  assumes "CreateOrder conv env db order = ((StatusCreated, OrderJSON oid created), db')"
  shows "\<exists>tx priced t.
           reserve_loop conv env 0 (Items order) db [] 0 = Inr (tx, priced, t) \<and>
           created = order\<lparr>Items := priced, Total := t, Status := OrderStatusPending\<rparr> \<and>
           oid = new_order_id env \<and>
           db' = tx\<lparr>orders := (orders tx)(oid \<mapsto> created)\<rparr>"
proof -
  from assms obtain tx priced t where
    loop: "reserve_loop conv env 0 (Items order) db [] 0 = Inr (tx, priced, t)"
    by (auto simp: CreateOrder_def split: sum.splits dest: reserve_loop_Inl)
  from assms loop show ?thesis
    by (auto simp: CreateOrder_def Let_def split: if_splits)
qed


text \<open>In exact arithmetic the sum added up from the left is the usual sum.\<close>

lemma line_total_sum_list:
  fixes a :: "'m::{monoid_add,times}"
  shows "foldl (line_total conv) a items =
         a + sum_list (map (\<lambda>it. ItemPrice it * conv (Quantity it)) items)"
  by (induction items arbitrary: a) (simp_all add: line_total_def add.assoc)

section \<open>CreateOrder: rollback, totals, independence of supplied values\<close>

text \<open>
  C1. Let the items of the request be \<open>before @ item # rest\<close>, let the reservations of
  \<open>before\<close> have been applied one after the other (reaching the transaction state
  \<open>tx\<close>, which holds their stock decrements), and let the reservation of \<open>item\<close> fail
  there (product missing, or stock below the quantity). Then CreateOrder aborts: the
  store it leaves is the store it was given, so no stock decrement of an earlier item
  is committed and no order is created, and the response names the failing item's
  product id and the reason: 404 ``Product not found'', or 400 ``Insufficient stock''
  with the available and the requested quantity.
\<close>

theorem CreateOrder_reservation_failure_rolls_back:
  assumes "Items order = before @ item # rest"
    and "reserve_loop conv env 0 before db [] 0 = Inr (tx, priced, t)"
    and "reservation_fails tx item"
  shows "CreateOrder conv env db order = (reservation_error tx item, db) \<and>
         (reservation_error tx item =
            (StatusNotFound, ErrorProductH ''Product not found'' (ProductID item)) \<or>
          (\<exists>available. available < Quantity item \<and>
             reservation_error tx item =
               (StatusBadRequest,
                ErrorStockH ''Insufficient stock'' (ProductID item) available (Quantity item))))"
proof -
  have "CreateOrder conv env db order = (reservation_error tx item, db)"
    using assms(1,2) reserve_loop_fails_first [OF assms(3)]
    by (simp add: CreateOrder_def reserve_loop_append del: reserve_loop.simps)
  moreover from assms(3) have
    "reservation_error tx item =
       (StatusNotFound, ErrorProductH ''Product not found'' (ProductID item)) \<or>
     (\<exists>available. available < Quantity item \<and>
        reservation_error tx item =
          (StatusBadRequest,
           ErrorStockH ''Insufficient stock'' (ProductID item) available (Quantity item)))"
    by (auto simp: reservation_fails_def reservation_error_def split: option.splits)
  ultimately show ?thesis by blast
qed

theorem CreateOrder_reservation_failure_rolls_back_witness:
  "CreateOrder of_int (no_faults 1) shop (request 1 [(1, 2), (2, 1000)]) =
     ((StatusBadRequest, ErrorStockH ''Insufficient stock'' 2 5 1000), shop) \<and>
   map_option Stock (products shop 1) = Some 10"
  using CreateOrder_reservation_failure_rolls_back
    [of "request 1 [(1, 2), (2, 1000)]"
        "[\<lparr>ProductID = 1, Quantity = 2, ItemPrice = 0\<rparr>]"
        "\<lparr>ProductID = 2, Quantity = 1000, ItemPrice = 0\<rparr>" "[]"
        of_int "no_faults 1" shop
        "shop\<lparr>products := (products shop)(1 \<mapsto> \<lparr>Price = 999, Stock = 8\<rparr>)\<rparr>"
        "[\<lparr>ProductID = 1, Quantity = 2, ItemPrice = 999\<rparr>]" 1998]
  by (simp add: request_def shop_def no_faults_def wrap64_def reservation_fails_def
      reservation_error_def)



text \<open>
  C10. Two requests that agree on the user and on the (product id, quantity) pairs of
  their items, whatever total, status and item prices they carry, get the same
  response from CreateOrder and leave the same store. When the response is 201, the
  created order has status pending, its item prices are the products' prices in the
  store, and its total is the sum computed from them.
\<close>

theorem CreateOrder_ignores_supplied_values:
  assumes "UserID order1 = UserID order2"
    and "map (\<lambda>it. (ProductID it, Quantity it)) (Items order1) =
         map (\<lambda>it. (ProductID it, Quantity it)) (Items order2)"
  shows "CreateOrder conv env db order1 = CreateOrder conv env db order2 \<and>
         (CreateOrder conv env db order1 = ((StatusCreated, OrderJSON oid created), db') \<longrightarrow>
            Status created = OrderStatusPending \<and>
            list_all2 (priced_from db) (Items order1) (Items created) \<and>
            Total created = foldl (line_total conv) 0 (Items created))"
proof -
  have upd: "order1\<lparr>Items := xs, Total := t, Status := s\<rparr> =
             order2\<lparr>Items := xs, Total := t, Status := s\<rparr>" for xs t s
    using assms(1) by (cases order1, cases order2) simp
  have same: "CreateOrder conv env db order1 = CreateOrder conv env db order2"
    unfolding CreateOrder_def reserve_loop_cong [OF assms(2)] upd ..
  have "Status created = OrderStatusPending \<and>
        list_all2 (priced_from db) (Items order1) (Items created) \<and>
        Total created = foldl (line_total conv) 0 (Items created)"
    if "CreateOrder conv env db order1 = ((StatusCreated, OrderJSON oid created), db')"
  proof -
    from CreateOrder_created [OF that] obtain tx priced t where
      loop: "reserve_loop conv env 0 (Items order1) db [] 0 = Inr (tx, priced, t)"
      and c: "created = order1\<lparr>Items := priced, Total := t, Status := OrderStatusPending\<rparr>"
      by blast
    from reserve_loop_priced [OF loop] c show ?thesis by auto
  qed
  with same show ?thesis by blast
qed

theorem CreateOrder_ignores_supplied_values_witness:
  "CreateOrder of_int (no_faults 1) shop
     \<lparr>UserID = 1, Status = ''delivered'', Total = 1,
      Items = [\<lparr>ProductID = 1, Quantity = 3, ItemPrice = 1\<rparr>]\<rparr> =
   CreateOrder of_int (no_faults 1) shop (request 1 [(1, 3)]) \<and>
   fst (CreateOrder of_int (no_faults 1) shop
     \<lparr>UserID = 1, Status = ''delivered'', Total = 1,
      Items = [\<lparr>ProductID = 1, Quantity = 3, ItemPrice = 1\<rparr>]\<rparr>) =
     (StatusCreated, OrderJSON 1 \<lparr>UserID = 1, Status = ''pending'', Total = 2997,
        Items = [\<lparr>ProductID = 1, Quantity = 3, ItemPrice = 999\<rparr>]\<rparr>)"
  using CreateOrder_ignores_supplied_values
    [of "\<lparr>UserID = 1, Status = ''delivered'', Total = 1,
          Items = [\<lparr>ProductID = 1, Quantity = 3, ItemPrice = 1\<rparr>]\<rparr>"
        "request 1 [(1, 3)]" of_int "no_faults 1" shop 1
        "\<lparr>UserID = 1, Status = ''pending'', Total = 2997,
          Items = [\<lparr>ProductID = 1, Quantity = 3, ItemPrice = 999\<rparr>]\<rparr>"
        "snd (CreateOrder of_int (no_faults 1) shop (request 1 [(1, 3)]))"]
  by (simp add: CreateOrder_def request_def shop_def no_faults_def wrap64_def)

section \<open>CreateOrder validates neither the item list nor the quantities\<close>

text \<open>
  C5 as stated fails: the request with no items, sent to the shop, is answered 201 and
  an order (pending, total 0, no items) is stored.
\<close>

theorem CreateOrder_empty_items_counterexample:
  "CreateOrder of_int (no_faults 1) shop (request 1 []) =
     ((StatusCreated, OrderJSON 1 \<lparr>UserID = 1, Status = ''pending'', Total = 0, Items = []\<rparr>),
      shop\<lparr>orders := [1 \<mapsto> \<lparr>UserID = 1, Status = ''pending'', Total = 0, Items = []\<rparr>]\<rparr>)"
  by (simp add: CreateOrder_def request_def shop_def no_faults_def)

text \<open>
  C5, amended. For a request whose item list is empty, CreateOrder has no check to
  fail on: it never answers 400, it changes no product, and, the store executing the
  insert, the commit and the reload under a free key, it answers 201 and stores an
  order with status pending, total zero and no items.
\<close>

theorem CreateOrder_empty_items:
  assumes "Items order = []"
  shows "fst (fst (CreateOrder conv env db order)) \<noteq> StatusBadRequest \<and>
         products (snd (CreateOrder conv env db order)) = products db \<and>
         (\<not> order_write_fails env \<and> orders db (new_order_id env) = None \<and>
          \<not> commit_fails env \<and> \<not> reload_fails env \<longrightarrow>
          CreateOrder conv env db order =
            ((StatusCreated,
              OrderJSON (new_order_id env)
                (order\<lparr>Items := [], Total := 0, Status := OrderStatusPending\<rparr>)),
             db\<lparr>orders := (orders db)
                (new_order_id env \<mapsto>
                   order\<lparr>Items := [], Total := 0, Status := OrderStatusPending\<rparr>)\<rparr>))"
  using assms by (simp add: CreateOrder_def Let_def)

theorem CreateOrder_empty_items_witness:
  "CreateOrder of_int (no_faults 2) placed (request 7 []) =
     ((StatusCreated, OrderJSON 2 \<lparr>UserID = 7, Status = ''pending'', Total = 0, Items = []\<rparr>),
      placed\<lparr>orders := (orders placed)
         (2 \<mapsto> \<lparr>UserID = 7, Status = ''pending'', Total = 0, Items = []\<rparr>)\<rparr>)"
  using CreateOrder_empty_items [of "request 7 []" of_int "no_faults 2" placed]
  by (simp add: request_def no_faults_def placed_eq)

text \<open>
  C6 as stated fails: a request for minus five of product 1 is answered 201, the order
  is stored with an item of quantity minus five, and the stock goes from 10 to 15.
\<close>

theorem CreateOrder_negative_quantity_counterexample:
  "fst (CreateOrder of_int (no_faults 1) shop (request 1 [(1, - 5)])) =
     (StatusCreated, OrderJSON 1 \<lparr>UserID = 1, Status = ''pending'', Total = - 4995,
        Items = [\<lparr>ProductID = 1, Quantity = - 5, ItemPrice = 999\<rparr>]\<rparr>) \<and>
   map_option Stock (products (snd (CreateOrder of_int (no_faults 1) shop (request 1 [(1, - 5)]))) 1)
     = Some 15"
  by (simp add: CreateOrder_def request_def shop_def no_faults_def wrap64_def)

text \<open>
  C6, amended. CreateOrder does not validate quantities. The items of a created order
  carry exactly the requested quantities, so they are all strictly positive exactly
  when the requested ones are. A request of one item with quantity \<open>\<le> 0\<close> for a
  product that is there with non-negative stock passes the stock check: the store
  executing its statements under a free key, the answer is 201, the order is stored
  with that quantity, and the stock is set to stock minus quantity (as a 64-bit value),
  which is not a decrease.
\<close>

theorem CreateOrder_quantities_unchecked:
  "(CreateOrder conv env db order = ((StatusCreated, OrderJSON oid created), db') \<longrightarrow>
      map Quantity (Items created) = map Quantity (Items order) \<and>
      ((\<forall>it \<in> set (Items created). 0 < Quantity it) \<longleftrightarrow>
       (\<forall>it \<in> set (Items order). 0 < Quantity it))) \<and>
   (Items order = [item] \<and> products db (ProductID item) = Some product \<and>
    Quantity item \<le> 0 \<and> 0 \<le> Stock product \<and>
    \<not> stock_write_fails env 0 \<and> \<not> order_write_fails env \<and>
    orders db (new_order_id env) = None \<and> \<not> commit_fails env \<and> \<not> reload_fails env \<longrightarrow>
      CreateOrder conv env db order =
        ((StatusCreated,
          OrderJSON (new_order_id env)
            (order\<lparr>Items := [item\<lparr>ItemPrice := Price product\<rparr>],
                   Total := 0 + Price product * conv (Quantity item),
                   Status := OrderStatusPending\<rparr>)),
         db\<lparr>products := (products db)
              (ProductID item \<mapsto> product\<lparr>Stock := wrap64 (Stock product - Quantity item)\<rparr>),
            orders := (orders db)
              (new_order_id env \<mapsto>
                 order\<lparr>Items := [item\<lparr>ItemPrice := Price product\<rparr>],
                        Total := 0 + Price product * conv (Quantity item),
                        Status := OrderStatusPending\<rparr>)\<rparr>))"
proof -
  have "map Quantity (Items created) = map Quantity (Items order) \<and>
        ((\<forall>it \<in> set (Items created). 0 < Quantity it) \<longleftrightarrow>
         (\<forall>it \<in> set (Items order). 0 < Quantity it))"
    if "CreateOrder conv env db order = ((StatusCreated, OrderJSON oid created), db')"
  proof -
    from CreateOrder_created [OF that] obtain tx priced t where
      loop: "reserve_loop conv env 0 (Items order) db [] 0 = Inr (tx, priced, t)"
      and c: "created = order\<lparr>Items := priced, Total := t, Status := OrderStatusPending\<rparr>"
      by blast
    from reserve_loop_priced [OF loop] have "list_all2 (priced_from db) (Items order) priced"
      by simp
    from priced_from_Quantity [OF this] c have
      q: "map Quantity (Items created) = map Quantity (Items order)"
      by simp
    have "(\<forall>it \<in> set (Items created). 0 < Quantity it) \<longleftrightarrow>
          (\<forall>n \<in> set (map Quantity (Items created)). 0 < n)"
      by simp
    also have "\<dots> \<longleftrightarrow> (\<forall>n \<in> set (map Quantity (Items order)). 0 < n)"
      by (simp only: q)
    also have "\<dots> \<longleftrightarrow> (\<forall>it \<in> set (Items order). 0 < Quantity it)"
      by simp
    finally show ?thesis using q by blast
  qed
  moreover have "CreateOrder conv env db order =
        ((StatusCreated,
          OrderJSON (new_order_id env)
            (order\<lparr>Items := [item\<lparr>ItemPrice := Price product\<rparr>],
                   Total := 0 + Price product * conv (Quantity item),
                   Status := OrderStatusPending\<rparr>)),
         db\<lparr>products := (products db)
              (ProductID item \<mapsto> product\<lparr>Stock := wrap64 (Stock product - Quantity item)\<rparr>),
            orders := (orders db)
              (new_order_id env \<mapsto>
                 order\<lparr>Items := [item\<lparr>ItemPrice := Price product\<rparr>],
                        Total := 0 + Price product * conv (Quantity item),
                        Status := OrderStatusPending\<rparr>)\<rparr>)"
    if "Items order = [item]" "products db (ProductID item) = Some product"
      "Quantity item \<le> 0" "0 \<le> Stock product"
      "\<not> stock_write_fails env 0" "\<not> order_write_fails env"
      "orders db (new_order_id env) = None" "\<not> commit_fails env" "\<not> reload_fails env"
    using that by (simp add: CreateOrder_def Let_def)
  ultimately show ?thesis by blast
qed

theorem CreateOrder_quantities_unchecked_witness:
  "CreateOrder of_int (no_faults 1) shop (request 1 [(2, 0)]) =
     ((StatusCreated, OrderJSON 1 \<lparr>UserID = 1, Status = ''pending'', Total = 0,
         Items = [\<lparr>ProductID = 2, Quantity = 0, ItemPrice = 500\<rparr>]\<rparr>),
      shop\<lparr>products := (products shop)(2 \<mapsto> \<lparr>Price = 500, Stock = 5\<rparr>),
           orders := [1 \<mapsto> \<lparr>UserID = 1, Status = ''pending'', Total = 0,
                              Items = [\<lparr>ProductID = 2, Quantity = 0, ItemPrice = 500\<rparr>]\<rparr>]\<rparr>)"
  using CreateOrder_quantities_unchecked
    [of of_int "no_faults 1" shop "request 1 [(2, 0)]" 1
        "\<lparr>UserID = 1, Status = ''pending'', Total = 0,
          Items = [\<lparr>ProductID = 2, Quantity = 0, ItemPrice = 500\<rparr>]\<rparr>"
        "snd (CreateOrder of_int (no_faults 1) shop (request 1 [(2, 0)]))"
        "\<lparr>ProductID = 2, Quantity = 0, ItemPrice = 0\<rparr>" "\<lparr>Price = 500, Stock = 5\<rparr>"]
  by (simp add: request_def shop_def no_faults_def wrap64_def)

section \<open>Stock stays non-negative\<close>

lemma wrap64_id: "in_int64 x \<Longrightarrow> wrap64 x = x"
  by (simp add: wrap64_def in_int64_def)

lemma stock_ok_debit:
  assumes "stock_ok tx" and "products tx pid = Some product"
    and "0 \<le> q" and "\<not> Stock product < q"
  shows "stock_ok (tx\<lparr>products := (products tx)
           (pid \<mapsto> product\<lparr>Stock := wrap64 (Stock product - q)\<rparr>)\<rparr>)"
proof -
  from assms(1,2) have "0 \<le> Stock product" "in_int64 (Stock product)"
    by (auto simp: stock_ok_def)
  with assms(3,4) have r: "0 \<le> Stock product - q" "in_int64 (Stock product - q)"
    by (auto simp: in_int64_def)
  with assms(1) show ?thesis
    by (auto simp: stock_ok_def wrap64_id)
qed

lemma reserve_loop_stock_ok:
  "stock_ok tx \<Longrightarrow> \<forall>item \<in> set items. 0 \<le> Quantity item \<Longrightarrow>
   reserve_loop conv env i items tx priced t = Inr (tx', priced', t') \<Longrightarrow> stock_ok tx'"
proof (induction items arbitrary: i tx priced t)
  case Nil
  then show ?case by simp
next
  case (Cons item rest)
  from Cons.prems(3) obtain product where
    p: "products tx (ProductID item) = Some product"
    and ok: "\<not> Stock product < Quantity item" "\<not> stock_write_fails env i"
    by (auto split: option.splits if_splits)
  from Cons.prems(2) have q: "0 \<le> Quantity item"
    and rest: "\<forall>item \<in> set rest. 0 \<le> Quantity item"
    by simp_all
  note step = stock_ok_debit [OF Cons.prems(1) p q ok(1)]
  from Cons.prems(3) p ok show ?case
    by (auto intro: Cons.IH [OF step rest])
qed

lemma stock_ok_credit:
  assumes "stock_ok tx" and "products tx pid = Some product"
    and "0 \<le> q" and "in_int64 (Stock product + q)"
  shows "stock_ok (tx\<lparr>products := (products tx)(pid \<mapsto> product\<lparr>Stock := Stock product + q\<rparr>)\<rparr>)"
  using assms by (auto simp: stock_ok_def)

lemma restore_loop_stock_ok:
  "stock_ok tx \<Longrightarrow> \<forall>item \<in> set items. 0 \<le> Quantity item \<Longrightarrow>
   restore_loop env i items tx = Inr tx' \<Longrightarrow> stock_ok tx'"
proof (induction items arbitrary: i tx)
  case Nil
  then show ?case by simp
next
  case (Cons item rest)
  from Cons.prems(2) have q: "0 \<le> Quantity item"
    and rest: "\<forall>item \<in> set rest. 0 \<le> Quantity item"
    by simp_all
  show ?case
  proof (cases "products tx (ProductID item)")
    case None
    with Cons.prems(3) have "restore_loop env (Suc i) rest tx = Inr tx'"
      by (simp split: if_splits)
    from Cons.IH [OF Cons.prems(1) rest this] show ?thesis .
  next
    case (Some product)
    with Cons.prems(3) have r: "in_int64 (Stock product + Quantity item)"
      and rec: "restore_loop env (Suc i) rest
                  (tx\<lparr>products := (products tx)
                     (ProductID item \<mapsto> product\<lparr>Stock := Stock product + Quantity item\<rparr>)\<rparr>) =
                Inr tx'"
      by (auto split: if_splits)
    from Cons.IH [OF stock_ok_credit [OF Cons.prems(1) Some q r] rest rec] show ?thesis .
  qed
qed

lemma restore_loop_orders:
  "restore_loop env i items tx = Inr tx' \<Longrightarrow> orders tx' = orders tx"
  by (induction items arbitrary: i tx) (auto split: option.splits if_splits)

text \<open>The store a handler leaves: the one it was given, or the committed transaction.\<close>

lemma CreateOrder_cases:
  "snd (CreateOrder conv env db order) = db \<or>
   (\<exists>tx priced t. reserve_loop conv env 0 (Items order) db [] 0 = Inr (tx, priced, t) \<and>
      snd (CreateOrder conv env db order) =
        tx\<lparr>orders := (orders tx)(new_order_id env \<mapsto>
               order\<lparr>Items := priced, Total := t, Status := OrderStatusPending\<rparr>)\<rparr>)"
  by (auto simp: CreateOrder_def Let_def split: sum.splits)

lemma CancelOrder_cases:
  "snd (CancelOrder env db oid) = db \<or>
   (\<exists>order tx. orders db oid = Some order \<and> restore_loop env 0 (Items order) db = Inr tx \<and>
      snd (CancelOrder env db oid) =
        tx\<lparr>orders := (orders tx)(oid \<mapsto> order\<lparr>Status := OrderStatusCancelled\<rparr>)\<rparr>)"
  by (auto simp: CancelOrder_def split: option.splits sum.splits)

lemma CreateOrder_keeps_ok:
  assumes "stock_ok db" and "quantities_ok db"
    and "\<forall>item \<in> set (Items order). 0 \<le> Quantity item"
  shows "stock_ok (snd (CreateOrder conv env db order)) \<and>
         quantities_ok (snd (CreateOrder conv env db order))"
proof -
  from CreateOrder_cases [of conv env db order] show ?thesis
  proof (elim disjE exE conjE)
    assume "snd (CreateOrder conv env db order) = db"
    with assms show ?thesis by simp
  next
    fix tx priced t
    assume loop: "reserve_loop conv env 0 (Items order) db [] 0 = Inr (tx, priced, t)"
      and res: "snd (CreateOrder conv env db order) =
        tx\<lparr>orders := (orders tx)(new_order_id env \<mapsto>
               order\<lparr>Items := priced, Total := t, Status := OrderStatusPending\<rparr>)\<rparr>"
    from reserve_loop_stock_ok [OF assms(1,3) loop] have s: "stock_ok tx" .
    from reserve_loop_priced [OF loop] have pr: "list_all2 (priced_from db) (Items order) priced"
      by simp
    from assms(3) have "\<forall>q \<in> set (map Quantity (Items order)). 0 \<le> q"
      by simp
    then have "\<forall>q \<in> set (map Quantity priced). 0 \<le> q"
      by (simp only: priced_from_Quantity [OF pr])
    then have "\<forall>item \<in> set priced. 0 \<le> Quantity item"
      by simp
    with assms(2) reserve_loop_orders [OF loop] have "quantities_ok
        (tx\<lparr>orders := (orders tx)(new_order_id env \<mapsto>
               order\<lparr>Items := priced, Total := t, Status := OrderStatusPending\<rparr>)\<rparr>)"
      by (auto simp: quantities_ok_def)
    with s res show ?thesis by (simp add: stock_ok_def)
  qed
qed

lemma UpdateOrderStatus_keeps_ok:
  assumes "stock_ok db" and "quantities_ok db"
  shows "stock_ok (snd (UpdateOrderStatus env db oid new)) \<and>
         quantities_ok (snd (UpdateOrderStatus env db oid new))"
  using assms
  by (auto simp: UpdateOrderStatus_def stock_ok_def quantities_ok_def split: option.splits)

lemma CancelOrder_keeps_ok:
  assumes "stock_ok db" and "quantities_ok db"
  shows "stock_ok (snd (CancelOrder env db oid)) \<and> quantities_ok (snd (CancelOrder env db oid))"
proof -
  from CancelOrder_cases [of env db oid] show ?thesis
  proof (elim disjE exE conjE)
    assume "snd (CancelOrder env db oid) = db"
    with assms show ?thesis by simp
  next
    fix order tx
    assume o: "orders db oid = Some order"
      and loop: "restore_loop env 0 (Items order) db = Inr tx"
      and res: "snd (CancelOrder env db oid) =
        tx\<lparr>orders := (orders tx)(oid \<mapsto> order\<lparr>Status := OrderStatusCancelled\<rparr>)\<rparr>"
    from assms(2) o have q: "\<forall>item \<in> set (Items order). 0 \<le> Quantity item"
      by (auto simp: quantities_ok_def)
    from restore_loop_stock_ok [OF assms(1) q loop] have s: "stock_ok tx" .
    from assms(2) q restore_loop_orders [OF loop] have
      "quantities_ok (tx\<lparr>orders := (orders tx)(oid \<mapsto> order\<lparr>Status := OrderStatusCancelled\<rparr>)\<rparr>)"
      by (auto simp: quantities_ok_def)
    with s res show ?thesis by (simp add: stock_ok_def)
  qed
qed

text \<open>
  C7 as stated fails. From the shop (stocks 10 and 5): an order for minus five of
  product 1 is created (stock 15), an order for fifteen of it is created (stock 0),
  and the first order is cancelled, each call answered with success; the stock of
  product 1 is then minus five.
\<close>

theorem stock_negative_counterexample:
  "map_option Stock (products shop 1) = Some 10 \<and>
   fst (fst (CreateOrder of_int (no_faults 1) shop (request 1 [(1, - 5)]))) = StatusCreated \<and>
   fst (fst (CreateOrder of_int (no_faults 2)
         (snd (CreateOrder of_int (no_faults 1) shop (request 1 [(1, - 5)])))
         (request 1 [(1, 15)]))) = StatusCreated \<and>
   fst (CancelOrder (no_faults 1)
         (snd (CreateOrder of_int (no_faults 2)
            (snd (CreateOrder of_int (no_faults 1) shop (request 1 [(1, - 5)])))
            (request 1 [(1, 15)]))) 1) = (StatusOK, NoBody) \<and>
   map_option Stock (products (snd (CancelOrder (no_faults 1)
         (snd (CreateOrder of_int (no_faults 2)
            (snd (CreateOrder of_int (no_faults 1) shop (request 1 [(1, - 5)])))
            (request 1 [(1, 15)]))) 1)) 1) = Some (- 5)"
  by (simp add: CreateOrder_def CancelOrder_def request_def shop_def no_faults_def wrap64_def
      in_int64_def)

text \<open>
  C7, amended. On a store in which every stock is a non-negative 64-bit value and no
  stored order item has a negative quantity, CreateOrder (for a request without a
  negative quantity), UpdateOrderStatus and CancelOrder each leave such a store; and
  in CreateOrder the transaction state after each number \<open>n\<close> of reservations, also
  when several items name the same product, has every stock non-negative.
\<close>

theorem stock_never_negative:
  assumes "stock_ok db" and "quantities_ok db"
  shows "((\<forall>item \<in> set (Items order). 0 \<le> Quantity item) \<longrightarrow>
            stock_ok (snd (CreateOrder conv env db order)) \<and>
            quantities_ok (snd (CreateOrder conv env db order)) \<and>
            (\<forall>n tx priced t.
               reserve_loop conv env 0 (take n (Items order)) db [] 0 = Inr (tx, priced, t) \<longrightarrow>
               stock_ok tx)) \<and>
         stock_ok (snd (UpdateOrderStatus env db oid new)) \<and>
         quantities_ok (snd (UpdateOrderStatus env db oid new)) \<and>
         stock_ok (snd (CancelOrder env db oid')) \<and>
         quantities_ok (snd (CancelOrder env db oid'))"
proof -
  have "stock_ok tx"
    if "\<forall>item \<in> set (Items order). 0 \<le> Quantity item"
      and "reserve_loop conv env 0 (take n (Items order)) db [] 0 = Inr (tx, priced, t)"
    for n tx priced t
  proof -
    from that(1) have "\<forall>item \<in> set (take n (Items order)). 0 \<le> Quantity item"
      by (auto dest: in_set_takeD)
    from reserve_loop_stock_ok [OF assms(1) this that(2)] show ?thesis .
  qed
  with CreateOrder_keeps_ok [OF assms, of order conv env]
    UpdateOrderStatus_keeps_ok [OF assms, of env oid new]
    CancelOrder_keeps_ok [OF assms, of env oid']
  show ?thesis by blast
qed

lemma stock_ok_shop: "stock_ok shop"
  by (simp add: stock_ok_def shop_def in_int64_def)

lemma quantities_ok_shop: "quantities_ok shop"
  by (simp add: quantities_ok_def shop_def)

theorem stock_never_negative_witness:
  "stock_ok (snd (CreateOrder of_int (no_faults 1) shop (request 1 [(1, 6), (1, 4)]))) \<and>
   stock_ok (shop\<lparr>products := (products shop)(1 \<mapsto> \<lparr>Price = 999, Stock = 4\<rparr>)\<rparr>) \<and>
   map_option Stock
     (products (snd (CreateOrder of_int (no_faults 1) shop (request 1 [(1, 6), (1, 4)]))) 1) =
     Some 0 \<and>
   stock_ok (snd (UpdateOrderStatus (no_faults 1) shop 1 ''paid'')) \<and>
   stock_ok (snd (CancelOrder (no_faults 1) shop 1))"
  using stock_never_negative
    [OF stock_ok_shop quantities_ok_shop, of "request 1 [(1, 6), (1, 4)]" of_int "no_faults 1"
        1 "''paid''" 1]
  by (auto simp: request_def shop_def no_faults_def wrap64_def CreateOrder_def
      dest!: spec [of _ "Suc 0"])

section \<open>UpdateOrderStatus touches the status only\<close>

text \<open>
  C8 as stated fails in one point: on success the handler answers with
  \<^verbatim>\<open>c.Status(http.StatusOK)\<close>, which has no body, so the updated order is not
  returned to the caller.
\<close>

theorem UpdateOrderStatus_body_counterexample:
  "fst (UpdateOrderStatus (no_faults 1) placed 1 ''paid'') = (StatusOK, NoBody)"
  by (simp add: UpdateOrderStatus_def placed_eq no_faults_def isValidStatusTransition_def
      validTransitions_def)

text \<open>
  C8, amended. When UpdateOrderStatus answers 200, the response has no body (the order
  is not returned); the order existed and the transition was an allowed one; the store
  afterwards is the store before with the status of that one order replaced by the new
  status. So every product and its stock, every other order, and the user, the total
  and the items of the updated order are unchanged.
\<close>

theorem UpdateOrderStatus_success_frame:
  assumes "UpdateOrderStatus env db oid new = ((StatusOK, body), db')"
  shows "body = NoBody \<and> products db' = products db \<and>
         (\<exists>order. orders db oid = Some order \<and>
            (Status order, new) \<in> set spec_transition_table \<and>
            db' = db\<lparr>orders := (orders db)(oid \<mapsto> order\<lparr>Status := new\<rparr>)\<rparr> \<and>
            Items (order\<lparr>Status := new\<rparr>) = Items order \<and>
            Total (order\<lparr>Status := new\<rparr>) = Total order) \<and>
         (\<forall>other. other \<noteq> oid \<longrightarrow> orders db' other = orders db other)"
  using assms
  by (auto simp: UpdateOrderStatus_def isValidStatusTransition_table
      split: if_splits option.splits)

theorem UpdateOrderStatus_success_frame_witness:
  "snd (UpdateOrderStatus (no_faults 1) placed 1 ''cancelled'') =
     placed\<lparr>orders := (orders placed)
        (1 \<mapsto> \<lparr>UserID = 1, Status = ''cancelled'', Total = 2997,
                 Items = [\<lparr>ProductID = 1, Quantity = 3, ItemPrice = 999\<rparr>]\<rparr>)\<rparr> \<and>
   products (snd (UpdateOrderStatus (no_faults 1) placed 1 ''cancelled'')) = products placed"
  using UpdateOrderStatus_success_frame
    [of "no_faults 1" placed 1 "''cancelled''" NoBody
        "snd (UpdateOrderStatus (no_faults 1) placed 1 ''cancelled'')"]
  by (auto simp: UpdateOrderStatus_def placed_eq no_faults_def isValidStatusTransition_def
      validTransitions_def)

section \<open>Cancelling and the stock\<close>

text \<open>
  C4, the failing path. User 1 orders three of product 1 from the shop: the order is
  created and the stock goes from 10 to 7. UpdateOrderStatus then moves the order to
  cancelled (the table allows pending to cancelled) and answers 200; the stock is
  still 7, and CancelOrder refuses the order as already cancelled, so the three units
  are not restored. CancelOrder on the same pending order restores the stock to 10.
\<close>

theorem UpdateOrderStatus_cancelled_keeps_stock_debited:
  "map_option Stock (products shop 1) = Some 10 \<and>
   map_option Stock (products placed 1) = Some 7 \<and>
   fst (UpdateOrderStatus (no_faults 1) placed 1 ''cancelled'') = (StatusOK, NoBody) \<and>
   map_option Status (orders (snd (UpdateOrderStatus (no_faults 1) placed 1 ''cancelled'')) 1) =
     Some ''cancelled'' \<and>
   map_option Stock (products (snd (UpdateOrderStatus (no_faults 1) placed 1 ''cancelled'')) 1) =
     Some 7 \<and>
   CancelOrder (no_faults 1) (snd (UpdateOrderStatus (no_faults 1) placed 1 ''cancelled'')) 1 =
     ((StatusBadRequest, ErrorH ''Order is already cancelled''),
      snd (UpdateOrderStatus (no_faults 1) placed 1 ''cancelled'')) \<and>
   fst (CancelOrder (no_faults 1) placed 1) = (StatusOK, NoBody) \<and>
   map_option Status (orders (snd (CancelOrder (no_faults 1) placed 1)) 1) = Some ''cancelled'' \<and>
   map_option Stock (products (snd (CancelOrder (no_faults 1) placed 1)) 1) = Some 10"
  by (simp add: UpdateOrderStatus_def CancelOrder_def placed_eq shop_def no_faults_def
      isValidStatusTransition_def validTransitions_def in_int64_def)

text \<open>What CancelOrder itself does to the stock.\<close>


lemma restore_loop_Inl:
  "restore_loop env i items tx = Inl resp \<Longrightarrow> fst resp = StatusInternalServerError"
  by (induction items arbitrary: i tx) (auto split: option.splits if_splits)

lemma restore_loop_stock:
  "restore_loop env i items tx = Inr tx' \<Longrightarrow>
   products tx' pid =
     map_option (\<lambda>p. p\<lparr>Stock := Stock p + ordered_quantity pid items\<rparr>) (products tx pid)"
proof (induction items arbitrary: i tx)
  case Nil
  then show ?case by (simp add: ordered_quantity_def option.map_ident)
next
  case (Cons item rest)
  show ?case
  proof (cases "products tx (ProductID item)")
    case None
    with Cons.prems have "restore_loop env (Suc i) rest tx = Inr tx'"
      by (simp split: if_splits)
    from Cons.IH [OF this] None show ?thesis
      by (auto simp: ordered_quantity_def)
  next
    case (Some product)
    let ?tx = "tx\<lparr>products := (products tx)
                 (ProductID item \<mapsto> product\<lparr>Stock := Stock product + Quantity item\<rparr>)\<rparr>"
    from Cons.prems Some have "restore_loop env (Suc i) rest ?tx = Inr tx'"
      by (auto split: if_splits)
    from Cons.IH [OF this] Some show ?thesis
      by (auto simp: ordered_quantity_def add.assoc)
  qed
qed

lemma reserve_loop_stock:
  "stock_ok tx \<Longrightarrow> \<forall>item \<in> set items. 0 \<le> Quantity item \<Longrightarrow>
   reserve_loop conv env i items tx priced t = Inr (tx', priced', t') \<Longrightarrow>
   products tx' pid =
     map_option (\<lambda>p. p\<lparr>Stock := Stock p - ordered_quantity pid items\<rparr>) (products tx pid)"
proof (induction items arbitrary: i tx priced t)
  case Nil
  then show ?case by (simp add: ordered_quantity_def option.map_ident)
next
  case (Cons item rest)
  from Cons.prems(3) obtain product where
    p: "products tx (ProductID item) = Some product"
    and ok: "\<not> Stock product < Quantity item" "\<not> stock_write_fails env i"
    by (auto split: option.splits if_splits)
  from Cons.prems(2) have q: "0 \<le> Quantity item"
    and rest: "\<forall>item \<in> set rest. 0 \<le> Quantity item"
    by simp_all
  from Cons.prems(1) p have "0 \<le> Stock product" "in_int64 (Stock product)"
    by (auto simp: stock_ok_def)
  with q ok(1) have "in_int64 (Stock product - Quantity item)"
    by (auto simp: in_int64_def)
  then have w: "wrap64 (Stock product - Quantity item) = Stock product - Quantity item"
    by (rule wrap64_id)
  let ?tx = "tx\<lparr>products := (products tx)
                 (ProductID item \<mapsto> product\<lparr>Stock := Stock product - Quantity item\<rparr>)\<rparr>"
  from stock_ok_debit [OF Cons.prems(1) p q ok(1)] w have s: "stock_ok ?tx"
    by simp
  from Cons.prems(3) p ok w have
    "reserve_loop conv env (Suc i) rest ?tx (priced @ [item\<lparr>ItemPrice := Price product\<rparr>])
       (t + Price product * conv (Quantity item)) = Inr (tx', priced', t')"
    by simp
  from Cons.IH [OF s rest this] p show ?case
    by (auto simp: ordered_quantity_def algebra_simps)
qed

lemma priced_from_ordered_quantity:
  "list_all2 (priced_from db) reqs its \<Longrightarrow> ordered_quantity pid its = ordered_quantity pid reqs"
  by (induction rule: list_all2_induct) (auto simp: priced_from_def ordered_quantity_def)

text \<open>
  When CancelOrder answers 200: the order existed and was neither cancelled nor
  delivered, it is now cancelled, and each product's stock has grown by exactly the
  quantity the order's items name for it, in the same committed store.
\<close>

lemma CancelOrder_restores_stock:
  assumes "CancelOrder env db oid = ((StatusOK, body), db')"
  shows "\<exists>order. orders db oid = Some order \<and>
           Status order \<noteq> OrderStatusCancelled \<and> Status order \<noteq> OrderStatusDelivered \<and>
           orders db' = (orders db)(oid \<mapsto> order\<lparr>Status := OrderStatusCancelled\<rparr>) \<and>
           (\<forall>pid. products db' pid =
              map_option (\<lambda>p. p\<lparr>Stock := Stock p + ordered_quantity pid (Items order)\<rparr>)
                (products db pid))"
proof -
  from assms obtain order where o: "orders db oid = Some order"
    by (auto simp: CancelOrder_def split: option.splits)
  from assms o have st: "Status order \<noteq> OrderStatusCancelled" "Status order \<noteq> OrderStatusDelivered"
    by (auto simp: CancelOrder_def split: if_splits)
  from assms o st obtain tx where loop: "restore_loop env 0 (Items order) db = Inr tx"
    and d: "db' = tx\<lparr>orders := (orders tx)(oid \<mapsto> order\<lparr>Status := OrderStatusCancelled\<rparr>)\<rparr>"
    by (auto simp: CancelOrder_def split: sum.splits if_splits dest: restore_loop_Inl)
  from restore_loop_orders [OF loop] restore_loop_stock [OF loop] o st d show ?thesis
    by simp
qed

text \<open>
  Create, then cancel through CancelOrder: on a store with non-negative 64-bit stocks
  and for a request without a negative quantity, the products after the cancellation
  are the products before the creation.
\<close>

lemma create_then_CancelOrder:
  assumes "stock_ok db" and "\<forall>item \<in> set (Items order). 0 \<le> Quantity item"
    and "CreateOrder conv env db order = ((StatusCreated, OrderJSON oid created), db1)"
    and "CancelOrder env' db1 oid = ((StatusOK, body), db2)"
  shows "products db2 = products db"
proof
  fix pid
  from CreateOrder_created [OF assms(3)] obtain tx priced t where
    loop: "reserve_loop conv env 0 (Items order) db [] 0 = Inr (tx, priced, t)"
    and c: "created = order\<lparr>Items := priced, Total := t, Status := OrderStatusPending\<rparr>"
    and d: "db1 = tx\<lparr>orders := (orders tx)(oid \<mapsto> created)\<rparr>"
    by blast
  from reserve_loop_priced [OF loop] have "list_all2 (priced_from db) (Items order) priced"
    by simp
  from priced_from_ordered_quantity [OF this] c have
    same: "ordered_quantity pid (Items created) = ordered_quantity pid (Items order)"
    by simp
  from reserve_loop_stock [OF assms(1,2) loop] d have
    debit: "products db1 pid =
      map_option (\<lambda>p. p\<lparr>Stock := Stock p - ordered_quantity pid (Items order)\<rparr>) (products db pid)"
    by simp
  from CancelOrder_restores_stock [OF assms(4)] d have
    credit: "products db2 pid =
      map_option (\<lambda>p. p\<lparr>Stock := Stock p + ordered_quantity pid (Items created)\<rparr>) (products db1 pid)"
    by auto
  show "products db2 pid = products db pid"
    unfolding credit debit same by (cases "products db pid") simp_all
qed

section \<open>Concurrent reservations\<close>

text \<open>
  The two steps of a call, made one after the other with no other access in between,
  are the handler: for a request whose items are the one item of the caller they give
  the response and the store of CreateOrder.
\<close>

lemma update_stock_held:
  "products db pid = Some product \<Longrightarrow>
   update_stock db pid n = db\<lparr>products := (products db)(pid \<mapsto> product\<lparr>Stock := n\<rparr>)\<rparr>"
  by (simp add: update_stock_def)

lemma call_steps_are_CreateOrder:
  assumes "Items (caller_order c) = [caller_item c]"
  shows "(case call_step conv c Begun db of (call, db1) \<Rightarrow> call_step conv c call db1) =
         (Answered (fst (CreateOrder conv (caller_env c) db (caller_order c))),
          snd (CreateOrder conv (caller_env c) db (caller_order c)))"
proof (cases "products db (ProductID (caller_item c))")
  case None
  with assms show ?thesis
    by (simp add: read_product_def CreateOrder_def)
next
  case (Some product)
  with assms show ?thesis
    by (simp add: read_product_def CreateOrder_def check_and_write_def update_stock_held Let_def
        split: option.splits)
qed

lemma run_alone_is_CreateOrder:
  assumes "Items (caller_order c) = [caller_item c]"
  shows "run conv [c] [0, 0] ([Begun], db) =
         ([Answered (fst (CreateOrder conv (caller_env c) db (caller_order c)))],
          snd (CreateOrder conv (caller_env c) db (caller_order c)))"
  using call_steps_are_CreateOrder [OF assms, of conv db]
  by (auto split: prod.splits)

text \<open>
  C9, the failing schedule. Product 2 has stock 5; callers 1 and 2 each ask for three
  of it. One after the other, the first is answered 201 and the second 400
  ``Insufficient stock'' (available 2, requested 3), and the stock is 2. Interleaved as
  read, read, write, write, both calls hold the row with stock 5, both pass the check,
  both write 5 - 3 = 2 and both are answered 201 with their orders stored: the
  committed debits are 6 against a stock of 5, no call fails, and the stock reads 2.
\<close>

theorem concurrent_CreateOrder_oversells:
  "map_option Stock (products shop 2) = Some 5 \<and>
   fst (run of_int [caller 1, caller 2] [0, 0, 1, 1] ([Begun, Begun], shop)) =
     [Answered (StatusCreated,
        OrderJSON 1 \<lparr>UserID = 1, Status = ''pending'', Total = 1500,
          Items = [\<lparr>ProductID = 2, Quantity = 3, ItemPrice = 500\<rparr>]\<rparr>),
      Answered (StatusBadRequest, ErrorStockH ''Insufficient stock'' 2 2 3)] \<and>
   fst (run of_int [caller 1, caller 2] [0, 1, 0, 1] ([Begun, Begun], shop)) =
     [Answered (StatusCreated,
        OrderJSON 1 \<lparr>UserID = 1, Status = ''pending'', Total = 1500,
          Items = [\<lparr>ProductID = 2, Quantity = 3, ItemPrice = 500\<rparr>]\<rparr>),
      Answered (StatusCreated,
        OrderJSON 2 \<lparr>UserID = 2, Status = ''pending'', Total = 1500,
          Items = [\<lparr>ProductID = 2, Quantity = 3, ItemPrice = 500\<rparr>]\<rparr>)] \<and>
   committed_debits [caller 1, caller 2]
     (fst (run of_int [caller 1, caller 2] [0, 1, 0, 1] ([Begun, Begun], shop))) = 6 \<and>
   map_option Stock
     (products (snd (run of_int [caller 1, caller 2] [0, 1, 0, 1] ([Begun, Begun], shop))) 2) =
     Some 2 \<and>
   map_option (map Quantity \<circ> Items)
     (orders (snd (run of_int [caller 1, caller 2] [0, 1, 0, 1] ([Begun, Begun], shop))) 1) =
     Some [3] \<and>
   map_option (map Quantity \<circ> Items)
     (orders (snd (run of_int [caller 1, caller 2] [0, 1, 0, 1] ([Begun, Begun], shop))) 2) =
     Some [3]"
  by (simp add: caller_def request_def shop_def no_faults_def wrap64_def committed_debits_def
      read_product_def check_and_write_def update_stock_def)

text \<open>
  So the bound on the committed debits, stated over every schedule of the two callers,
  does not hold of the handler.
\<close>

lemma committed_debits_not_bounded:
  "\<not> (\<forall>schedule.
        committed_debits [caller 1, caller 2]
          (fst (run of_int [caller 1, caller 2] schedule ([Begun, Begun], shop))) \<le> 5)"
proof
  assume "\<forall>schedule.
        committed_debits [caller 1, caller 2]
          (fst (run of_int [caller 1, caller 2] schedule ([Begun, Begun], shop))) \<le> 5"
  then have "committed_debits [caller 1, caller 2]
          (fst (run of_int [caller 1, caller 2] [0, 1, 0, 1] ([Begun, Begun], shop))) \<le> 5"
    by blast
  then show False
    by (simp add: caller_def request_def shop_def no_faults_def wrap64_def committed_debits_def
        read_product_def check_and_write_def update_stock_def)
qed

end
